theory Spec2Isabelle
  imports Main "HOL-Library.AList"
begin

section \<open>Exceptions and values\<close>

text \<open>
  The exception classes that \<^verbatim>\<open>substep_executor.py\<close> and \<^verbatim>\<open>workers.py\<close> tell apart.
  \<open>CalledProcessError\<close> carries \<^verbatim>\<open>returncode\<close> and \<^verbatim>\<open>stderr\<close> (which Python leaves
  \<^verbatim>\<open>None\<close> when the stream was not captured). \<open>OtherException\<close> stands for any other
  class deriving from \<^verbatim>\<open>Exception\<close>, with its class name and \<^verbatim>\<open>args[0]\<close> when there
  is one; \<open>OtherBaseException\<close> for a class deriving from \<^verbatim>\<open>BaseException\<close> only
  (\<^verbatim>\<open>GeneratorExit\<close>, say), with its class name.
\<close>

datatype exn =
    StopInputGroup string
  | TerminateExecution string
  | UnknownTarget string
  | RemovedTarget string
  | UnavailableLock string
  | KeyboardInterrupt
  | SystemExit
  | CalledProcessError int "string option"
  | ArgumentError string
  | ProcessKilled
  | RuntimeError "string option"
  | OtherException string "string option"
  | OtherBaseException string

text \<open>
  \<^verbatim>\<open>ProcessKilled\<close> is declared in \<^verbatim>\<open>sos/utils.py\<close>, which is not among the sources:
  whether it derives from \<^verbatim>\<open>Exception\<close> is the parameter \<open>pk\<close>.
\<close>

fun isinstance_Exception :: "bool \<Rightarrow> exn \<Rightarrow> bool" where
  "isinstance_Exception pk KeyboardInterrupt = False"
| "isinstance_Exception pk SystemExit = False"
| "isinstance_Exception pk (OtherBaseException c) = False"
| "isinstance_Exception pk ProcessKilled = pk"
| "isinstance_Exception pk e = True"

text \<open>\<^verbatim>\<open>e.__class__.__name__\<close>.\<close>

fun class_name :: "exn \<Rightarrow> string" where
  "class_name (StopInputGroup m) = ''StopInputGroup''"
| "class_name (TerminateExecution m) = ''TerminateExecution''"
| "class_name (UnknownTarget m) = ''UnknownTarget''"
| "class_name (RemovedTarget m) = ''RemovedTarget''"
| "class_name (UnavailableLock m) = ''UnavailableLock''"
| "class_name KeyboardInterrupt = ''KeyboardInterrupt''"
| "class_name SystemExit = ''SystemExit''"
| "class_name (CalledProcessError rc err) = ''CalledProcessError''"
| "class_name (ArgumentError m) = ''ArgumentError''"
| "class_name ProcessKilled = ''ProcessKilled''"
| "class_name (RuntimeError m) = ''RuntimeError''"
| "class_name (OtherException c a) = c"
| "class_name (OtherBaseException c) = c"

text \<open>
  \<^verbatim>\<open>e.args[0] if e.args else ''\<close>, as the f-string prints it. Only the classes that can
  reach the last \<^verbatim>\<open>except\<close> clause matter; \<^verbatim>\<open>ProcessKilled()\<close> is raised without
  arguments (\<^verbatim>\<open>workers.py\<close>, line 25).
\<close>

fun detail_of :: "exn \<Rightarrow> string" where
  "detail_of (RuntimeError None) = ''None''"
| "detail_of (RuntimeError (Some m)) = m"
| "detail_of (OtherException c None) = ''''"
| "detail_of (OtherException c (Some a)) = a"
| "detail_of ProcessKilled = ''''"
| "detail_of (StopInputGroup m) = m"
| "detail_of (TerminateExecution m) = m"
| "detail_of (UnknownTarget m) = m"
| "detail_of (RemovedTarget m) = m"
| "detail_of (UnavailableLock m) = m"
| "detail_of (ArgumentError m) = m"
| "detail_of e = ''''"

text \<open>
  The values a Result Record holds. A record is a Python dict: an association list in
  insertion order, \<^verbatim>\<open>res.update\<close> being \<^const>\<open>AList.update\<close> key by key.
\<close>

datatype pyval =
    VInt int
  | VStr string
  | VExc exn
  | VTargets "string list"
  | VContext "(string \<times> string) list"

type_synonym result = "(string \<times> pyval) list"

definition dict_update :: "result \<Rightarrow> result \<Rightarrow> result" where
  "dict_update res kvs = fold (\<lambda>(k, v) d. AList.update k v d) kvs res"

section \<open>The job, the outcomes of the calls it makes, and the worker's state\<close>

text \<open>
  What \<^verbatim>\<open>_execute_substep\<close> reads of its arguments and of the namespace after
  \<^verbatim>\<open>env.sos_dict.quick_update(proc_vars)\<close>: \<open>v_index\<close>, \<open>v_step_id\<close> and \<open>v_output\<close>
  are \<^verbatim>\<open>env.sos_dict['_index']\<close>, \<^verbatim>\<open>['step_id']\<close> and \<^verbatim>\<open>['_output']\<close>,
  \<open>v_output_unspecified\<close> is \<^verbatim>\<open>env.sos_dict['_output'].unspecified()\<close>, \<open>sig_mode\<close>
  is \<^verbatim>\<open>env.config['sig_mode']\<close>. \<open>asserts_hold\<close> says that the eight assertions at the
  head of \<^verbatim>\<open>execute_substep\<close> pass.
\<close>

record job =
  stmt :: string
  v_index :: int
  v_step_id :: string
  v_output :: "string list"
  v_output_unspecified :: bool
  sig_mode :: string
  capture_output :: bool
  asserts_hold :: bool

text \<open>A frame of \<^verbatim>\<open>traceback.extract_tb\<close>.\<close>

record frame =
  filename :: string
  name :: string
  lineno :: nat

text \<open>The dict \<^verbatim>\<open>validate_step_sig\<close> returns for a matching record.\<close>

record matched =
  matched_output :: "string list"
  matched_vars :: "(string \<times> string) list"

text \<open>
  The functions \<^verbatim>\<open>_execute_substep\<close> calls live in modules that are not among the
  sources (\<^verbatim>\<open>eval\<close>, \<^verbatim>\<open>targets\<close>, \<^verbatim>\<open>executor_utils\<close>, \<^verbatim>\<open>psutil\<close>). What each of them
  does when it is called is a parameter of the model: it returns, or it raises any
  exception. A signal handler or a keyboard interrupt that raises while a call runs is
  an outcome of that call. \<^verbatim>\<open>clear_output\<close>, the logger, \<^verbatim>\<open>sig.release(quiet=True)\<close>
  and \<^verbatim>\<open>send_pyobj\<close> on an open socket are taken to return.
  \<^item> \<open>validate_step_sig\<close>: the matching record, \<open>None\<close> for a falsy value;
  \<^item> \<open>SoS_exec\<close>: the statement writes \<open>SoS_exec_stdout\<close> and \<open>SoS_exec_stderr\<close>
    to \<^verbatim>\<open>sys.stdout\<close> and \<^verbatim>\<open>sys.stderr\<close>, then returns or raises;
  \<^item> \<open>sig_write\<close>: \<^verbatim>\<open>sig.write()\<close> returns a truth value; \<open>sig_content_output\<close> and
    \<open>sig_content_end_context\<close> are \<^verbatim>\<open>sig.content\<close> afterwards;
  \<^item> \<open>prepare_env\<close>: what lines 88 to 93 raise, before the \<^verbatim>\<open>try\<close> statement;
  \<^item> \<open>tb\<close> and \<open>script_of\<close>: the frames of \<^verbatim>\<open>sys.exc_info()\<close>, and the lines of
    \<^verbatim>\<open>stmtHash.script(filename)\<close> as the handler prints them, that is
    \<^verbatim>\<open>x.rstrip()\<close> for each \<^verbatim>\<open>x\<close> of \<^verbatim>\<open>splitlines()\<close>;
  \<^item> \<open>children\<close>: \<^verbatim>\<open>psutil.Process().children(recursive=True)\<close>, as process ids;
    \<open>terminate\<close> and \<open>kill\<close>: what \<^verbatim>\<open>p.terminate()\<close> and \<^verbatim>\<open>p.kill()\<close> do for the
    process \<open>p\<close> (\<^verbatim>\<open>psutil\<close> raises \<^verbatim>\<open>NoSuchProcess\<close> for a process that is gone);
    \<open>alive_after_terminate\<close> and \<open>alive_after_kill\<close>: the survivors that the two
    \<^verbatim>\<open>psutil.wait_procs\<close> calls report.
\<close>

record world =
  ProcessKilled_is_Exception :: bool
  prepare_env :: "exn option"
  validate_step_sig :: "exn + matched option"
  sig_lock :: "exn option"
  verify_input :: "exn option"
  SoS_exec_stdout :: string
  SoS_exec_stderr :: string
  SoS_exec :: "exn option"
  step_output_undetermined :: bool
  reevaluate_output :: "exn + string list"
  sig_set_output :: "exn option"
  sig_write :: "exn + bool"
  sig_content_output :: "string list"
  sig_content_end_context :: "(string \<times> string) list"
  tb :: "frame list"
  script_of :: "string \<Rightarrow> string list"
  children :: "exn + nat list"
  terminate :: "nat \<Rightarrow> exn option"
  alive_after_terminate :: "exn + nat list"
  kill :: "nat \<Rightarrow> exn option"
  alive_after_kill :: "exn + nat list"
  verbosity :: int

text \<open>
  What the worker does to the outside, in the order it does it. An event stands for a
  call; \<open>SigLock\<close> and \<open>SigWrite\<close> say how the call ended: \<open>SigLock None\<close> is a
  lock acquired, \<open>SigWrite (Inr b)\<close> a \<^verbatim>\<open>sig.write()\<close> that returned \<open>b\<close>.
\<close>

datatype event =
    Progress string string
  | SigLock "exn option"
  | VerifyInput
  | Exec string
  | SigSetOutput "string list"
  | SigWrite "exn + bool"
  | SigRelease
  | ClearOutput
  | LogInfoKilling "nat list"
  | LogInfoNoSubprocess
  | Terminate nat
  | WaitProcs "nat list" nat
  | Kill nat
  | LogWarningFailedToKill nat
  | ResultSocketConnect
  | ResultSend result
  | ResultSocketClose
  | SendReady
  | SigtermDefault
  | KillAllSubprocesses
  | CloseSocket string
  | DisconnectControllers
  | MasterSend exn

text \<open>
  \<^verbatim>\<open>sys.stdout\<close> and \<^verbatim>\<open>sys.stderr\<close> point at the worker's own stream or at a
  \<^verbatim>\<open>StringIO\<close> buffer, given with its content.
\<close>

datatype stream = WorkerStream | StringIO string

text \<open>
  The state of the worker process: the two stream variables, the text that has reached
  the worker's own streams, the trace of events, and the three local variables of
  \<^verbatim>\<open>_execute_substep\<close> that its handlers and its \<^verbatim>\<open>finally\<close> block read
  (\<open>sig\<close> is true while the variable holds a \<^verbatim>\<open>RuntimeInfo\<close>, false when it is \<^verbatim>\<open>None\<close>).
\<close>

record state =
  sys_stdout :: stream
  sys_stderr :: stream
  worker_stdout :: string
  worker_stderr :: string
  trace :: "event list"
  sig :: bool
  outmsg :: string
  errmsg :: string

section \<open>Computations that may raise\<close>

type_synonym 'a comp = "state \<Rightarrow> (exn + 'a) \<times> state"

definition returns :: "'a \<Rightarrow> 'a comp" where
  "returns x s = (Inr x, s)"

definition raise :: "exn \<Rightarrow> 'a comp" where
  "raise e s = (Inl e, s)"

definition bind :: "'a comp \<Rightarrow> ('a \<Rightarrow> 'b comp) \<Rightarrow> 'b comp" where
  "bind m f s = (case m s of (Inl e, s') \<Rightarrow> (Inl e, s') | (Inr x, s') \<Rightarrow> f x s')"

definition log :: "event \<Rightarrow> state \<Rightarrow> state" where
  "log ev s = s\<lparr>trace := trace s @ [ev]\<rparr>"

definition emit :: "event \<Rightarrow> unit comp" where
  "emit ev s = (Inr (), log ev s)"

text \<open>A call whose outcome is \<open>r\<close>: the event is recorded, then it returns or raises.\<close>

definition call :: "event \<Rightarrow> exn option \<Rightarrow> unit comp" where
  "call ev r s = (case r of None \<Rightarrow> (Inr (), log ev s) | Some e \<Rightarrow> (Inl e, log ev s))"

section \<open>\<^verbatim>\<open>stdoutIO\<close>\<close>

definition write_stdout :: "string \<Rightarrow> state \<Rightarrow> state" where
  "write_stdout t s = (case sys_stdout s of
       WorkerStream \<Rightarrow> s\<lparr>worker_stdout := worker_stdout s @ t\<rparr>
     | StringIO b \<Rightarrow> s\<lparr>sys_stdout := StringIO (b @ t)\<rparr>)"

definition write_stderr :: "string \<Rightarrow> state \<Rightarrow> state" where
  "write_stderr t s = (case sys_stderr s of
       WorkerStream \<Rightarrow> s\<lparr>worker_stderr := worker_stderr s @ t\<rparr>
     | StringIO b \<Rightarrow> s\<lparr>sys_stderr := StringIO (b @ t)\<rparr>)"

fun getvalue :: "stream \<Rightarrow> string" where
  "getvalue (StringIO b) = b"
| "getvalue WorkerStream = []"

text \<open>
  The context manager is a generator with no \<^verbatim>\<open>try\<close> around its \<^verbatim>\<open>yield\<close>: when the
  body of the \<^verbatim>\<open>with\<close> block raises, \<^verbatim>\<open>contextlib\<close> throws the exception into the
  generator at the \<^verbatim>\<open>yield\<close>, and the two assignments after it (lines 35 and 36) do
  not run. In the body, \<^verbatim>\<open>out\<close> and \<^verbatim>\<open>err\<close> are the buffers \<^verbatim>\<open>sys.stdout\<close> and
  \<^verbatim>\<open>sys.stderr\<close> point at.
\<close>

definition stdoutIO :: "'a comp \<Rightarrow> 'a comp" where
  "stdoutIO body s =
     (let oldout = sys_stdout s;
          olderr = sys_stderr s;
          s1 = s\<lparr>sys_stdout := StringIO [], sys_stderr := StringIO []\<rparr>
      in case body s1 of
           (Inr x, s2) \<Rightarrow> (Inr x, s2\<lparr>sys_stdout := oldout, sys_stderr := olderr\<rparr>)
         | (Inl e, s2) \<Rightarrow> (Inl e, s2))"

section \<open>\<^verbatim>\<open>_execute_substep\<close>\<close>

text \<open>\<^verbatim>\<open>SoS_exec(stmt, return_result=False)\<close>.\<close>

definition SoS_exec_stmt :: "job \<Rightarrow> world \<Rightarrow> unit comp" where
  "SoS_exec_stmt j w s =
     (let s1 = write_stderr (SoS_exec_stderr w) (write_stdout (SoS_exec_stdout w) (log (Exec (stmt j)) s))
      in case SoS_exec w of None \<Rightarrow> (Inr (), s1) | Some e \<Rightarrow> (Inl e, s1))"

text \<open>Lines 122 to 128.\<close>

definition run_stmt :: "job \<Rightarrow> world \<Rightarrow> unit comp" where
  "run_stmt j w =
     (if capture_output j then
        stdoutIO (bind (SoS_exec_stmt j w) (\<lambda>_ s.
          (Inr (), s\<lparr>outmsg := getvalue (sys_stdout s), errmsg := getvalue (sys_stderr s)\<rparr>)))
      else SoS_exec_stmt j w)"

text \<open>Lines 129 to 131: the value of \<^verbatim>\<open>env.sos_dict['_output']\<close> afterwards.\<close>

definition realized_output :: "job \<Rightarrow> world \<Rightarrow> (string list) comp" where
  "realized_output j w =
     (if step_output_undetermined w then
        (case reevaluate_output w of Inl e \<Rightarrow> raise e | Inr out \<Rightarrow> returns out)
      else returns (v_output j))"

text \<open>Lines 133 to 137.\<close>

definition write_signature :: "world \<Rightarrow> string list \<Rightarrow> result \<Rightarrow> result comp" where
  "write_signature w out res s =
     (if sig s then
        bind (call (SigSetOutput out) (sig_set_output w)) (\<lambda>_.
          case sig_write w of
            Inl e \<Rightarrow> bind (emit (SigWrite (Inl e))) (\<lambda>_. raise e)
          | Inr b \<Rightarrow> bind (emit (SigWrite (Inr b))) (\<lambda>_.
              returns (if b then dict_update res
                         [(''output'', VTargets (sig_content_output w)),
                          (''shared'', VContext (sig_content_end_context w))]
                       else res))) s
      else returns res s)"

text \<open>Lines 120 to 142: from \<^verbatim>\<open>verify_input\<close> to the success return.\<close>

definition execute_stmt :: "job \<Rightarrow> world \<Rightarrow> result comp" where
  "execute_stmt j w =
     bind (call VerifyInput (verify_input w)) (\<lambda>_.
     bind (run_stmt j w) (\<lambda>_.
     bind (realized_output j w) (\<lambda>out.
     bind (write_signature w out [(''index'', VInt (v_index j)), (''ret_code'', VInt 0)]) (\<lambda>res.
     bind (\<lambda>s. (Inr (if capture_output j
                      then dict_update res [(''stdout'', VStr (outmsg s)), (''stderr'', VStr (errmsg s))]
                      else res), s)) (\<lambda>res.
     bind (emit (Progress ''substep_completed'' (v_step_id j))) (\<lambda>_.
     returns res))))))"

text \<open>Lines 104 to 142: the body of the \<^verbatim>\<open>try\<close> statement.\<close>

definition try_body :: "job \<Rightarrow> world \<Rightarrow> result comp" where
  "try_body j w s =
     (if sig s then
        (case validate_step_sig w of
           Inl e \<Rightarrow> raise e s
         | Inr (Some m) \<Rightarrow>
             bind (\<lambda>s. (Inr (), s\<lparr>sig := False\<rparr>)) (\<lambda>_.
             bind (emit (Progress ''substep_ignored'' (v_step_id j))) (\<lambda>_.
             returns [(''index'', VInt (v_index j)), (''ret_code'', VInt 0), (''sig_skipped'', VInt 1),
                      (''output'', VTargets (matched_output m)), (''shared'', VContext (matched_vars m))])) s
         | Inr None \<Rightarrow>
             bind (call (SigLock (sig_lock w)) (sig_lock w)) (\<lambda>_. execute_stmt j w) s)
      else execute_stmt j w s)"

section \<open>The handlers of \<^verbatim>\<open>_execute_substep\<close>\<close>

text \<open>A \<^verbatim>\<open>for\<close> loop over a list: the first call that raises ends it.\<close>

fun for_each :: "('a \<Rightarrow> unit comp) \<Rightarrow> 'a list \<Rightarrow> unit comp" where
  "for_each f [] = returns ()"
| "for_each f (p # ps) = bind (f p) (\<lambda>_. for_each f ps)"

text \<open>\<^verbatim>\<open>gone, alive = psutil.wait_procs(procs, timeout=3)\<close>, with its outcome \<open>r\<close>.\<close>

definition wait_procs :: "nat list \<Rightarrow> exn + nat list \<Rightarrow> (nat list) comp" where
  "wait_procs procs r =
     bind (emit (WaitProcs procs 3)) (\<lambda>_. case r of Inl e \<Rightarrow> raise e | Inr alive \<Rightarrow> returns alive)"

text \<open>
  Lines 155 to 171: the subprocess tree is enumerated, every process is asked to
  terminate, the survivors of a wait of 3 seconds are killed, and the survivors of a
  second wait of 3 seconds are logged. No call is guarded: an exception of
  \<^verbatim>\<open>psutil\<close> ends the cleanup where it is raised.
\<close>

definition kill_subprocesses :: "world \<Rightarrow> unit comp" where
  "kill_subprocesses w =
     (case children w of
        Inl e \<Rightarrow> raise e
      | Inr procs \<Rightarrow>
          if procs \<noteq> [] then
            bind (if verbosity w > 2 then emit (LogInfoKilling procs) else returns ()) (\<lambda>_.
            bind (for_each (\<lambda>p. call (Terminate p) (terminate w p)) procs) (\<lambda>_.
            bind (wait_procs procs (alive_after_terminate w)) (\<lambda>alive.
            bind (if alive \<noteq> [] then for_each (\<lambda>p. call (Kill p) (kill w p)) alive
                  else returns ()) (\<lambda>_.
            bind (wait_procs procs (alive_after_kill w)) (\<lambda>alive'.
            if alive' \<noteq> [] then for_each (\<lambda>p. emit (LogWarningFailedToKill p)) alive'
            else returns ())))))
          else if verbosity w > 2 then emit LogInfoNoSubprocess
          else returns ())"

text \<open>
  Lines 185 to 203: the diagnostic of an uncaught error. \<open>code\<close> is the list of the
  stripped lines of the script; the window is the slice
  \<^verbatim>\<open>[max(line_number - 3, 0):line_number + 3]\<close> of the marked lines.
\<close>

fun join_lines :: "string list \<Rightarrow> string" where
  "join_lines [] = []"
| "join_lines [x] = x"
| "join_lines (x # y # ys) = x @ [CHR 0x0A] @ join_lines (y # ys)"

definition script_window :: "string list \<Rightarrow> nat \<Rightarrow> string" where
  "script_window code line_number =
     join_lines (drop (line_number - 3) (take (line_number + 3)
       (map (\<lambda>(i, x). (if i + 1 = line_number then ''---->'' else ''     '') @ '' '' @ x)
            (enumerate 0 code))))"

definition startswith :: "string \<Rightarrow> string \<Rightarrow> bool" where
  "startswith x p = (take (length p) x = p)"

definition frames_msg :: "world \<Rightarrow> string" where
  "frames_msg w =
     fold (\<lambda>st msg.
            if startswith (filename st) ''script_''
            then msg @ filename st @ '' in '' @ name st @ [CHR 0x0A]
                   @ script_window (script_of w (filename st)) (lineno st) @ [CHR 0x0A]
            else msg)
          (rev (tb w)) []"

definition uncaught_error :: "world \<Rightarrow> exn \<Rightarrow> exn" where
  "uncaught_error w e =
     (let error_class = class_name e;
          msg = frames_msg w;
          detail = detail_of e
      in if msg \<noteq> [] then
           RuntimeError (Some ([CHR 0x0A] @ replicate 75 CHR ''-'' @ [CHR 0x0A]
             @ error_class @ replicate (42 - length error_class) CHR '' ''
             @ ''Traceback (most recent call last)'' @ [CHR 0x0A]
             @ msg @ [CHR 0x0A]
             @ error_class @ '': '' @ detail))
         else RuntimeError (Some (error_class @ '': '' @ detail)))"

text \<open>
  The result of a handler that reports in band: \<^verbatim>\<open>index\<close>, \<^verbatim>\<open>ret_code\<close> and
  \<^verbatim>\<open>exception\<close>, and the two streams when \<^verbatim>\<open>capture_output\<close> is set.
\<close>

definition failure_result :: "job \<Rightarrow> int \<Rightarrow> exn \<Rightarrow> result comp" where
  "failure_result j rc e s =
     (let res = [(''index'', VInt (v_index j)), (''ret_code'', VInt rc), (''exception'', VExc e)]
      in (Inr (if capture_output j
               then dict_update res [(''stdout'', VStr (outmsg s)), (''stderr'', VStr (errmsg s))]
               else res), s))"

text \<open>
  Lines 143 to 206: the \<^verbatim>\<open>except\<close> clauses, in their order. An exception that no
  clause names and that does not derive from \<^verbatim>\<open>Exception\<close> is not caught. An
  exception raised inside a clause leaves the \<^verbatim>\<open>try\<close> statement in place of the one
  it handles.
\<close>

fun is_signal :: "exn \<Rightarrow> bool" where
  "is_signal (StopInputGroup m) = True"
| "is_signal (TerminateExecution m) = True"
| "is_signal (UnknownTarget m) = True"
| "is_signal (RemovedTarget m) = True"
| "is_signal (UnavailableLock m) = True"
| "is_signal e = False"

fun is_cancellation :: "exn \<Rightarrow> bool" where
  "is_cancellation KeyboardInterrupt = True"
| "is_cancellation SystemExit = True"
| "is_cancellation e = False"

definition except_clauses :: "job \<Rightarrow> world \<Rightarrow> exn \<Rightarrow> result comp" where
  "except_clauses j w e =
     (if is_signal e then
        bind (emit ClearOutput) (\<lambda>_. failure_result j 1 e)
      else if is_cancellation e then
        bind (emit ClearOutput) (\<lambda>_.
        bind (kill_subprocesses w) (\<lambda>_.
        raise e))
      else case e of
        CalledProcessError returncode err \<Rightarrow>
          bind (emit ClearOutput) (\<lambda>_. failure_result j returncode (RuntimeError err))
      | ArgumentError m \<Rightarrow>
          bind (emit ClearOutput) (\<lambda>_.
          returns [(''index'', VInt (v_index j)), (''ret_code'', VInt 1), (''exception'', VExc e)])
      | _ \<Rightarrow>
          if isinstance_Exception (ProcessKilled_is_Exception w) e then
            bind (emit ClearOutput) (\<lambda>_. failure_result j 1 (uncaught_error w e))
          else raise e)"

text \<open>
  \<^verbatim>\<open>_execute_substep\<close>, lines 94 to 210: \<open>enter\<close> is lines 94 to 102,
  \<open>finally_release\<close> the \<^verbatim>\<open>finally\<close> block. The lines before (88 to 93) build the
  namespace that \<^typ>\<open>job\<close> is read from; they are \<open>prepare\<close> below. A
  \<^verbatim>\<open>RuntimeInfo\<close> object is truthy, so \<^verbatim>\<open>if sig\<close> asks whether the variable is
  \<^verbatim>\<open>None\<close>.
\<close>

definition enter :: "job \<Rightarrow> state \<Rightarrow> state" where
  "enter j s0 = s0\<lparr>sig := \<not> (sig_mode j = ''ignore'' \<or> v_output_unspecified j),
                    outmsg := [], errmsg := []\<rparr>"

definition finally_release :: "state \<Rightarrow> state" where
  "finally_release s = (if sig s then log SigRelease s else s)"

definition priv_execute_substep :: "job \<Rightarrow> world \<Rightarrow> result comp" where
  "priv_execute_substep j w s0 =
     (case (case try_body j w (enter j s0) of
              (Inr res, s1) \<Rightarrow> (Inr res, s1)
            | (Inl e, s1) \<Rightarrow> except_clauses j w e s1) of
        (r, s2) \<Rightarrow> (r, finally_release s2))"

text \<open>
  Lines 88 to 93 of \<^verbatim>\<open>_execute_substep\<close> stand before its \<^verbatim>\<open>try\<close> statement: an
  exception raised there leaves the function at once. The whole call is these lines
  followed by lines 94 to 210.
\<close>

definition prepare :: "world \<Rightarrow> unit comp" where
  "prepare w = (case prepare_env w of None \<Rightarrow> returns () | Some e \<Rightarrow> raise e)"

definition priv_execute_substep_call :: "job \<Rightarrow> world \<Rightarrow> result comp" where
  "priv_execute_substep_call j w = bind (prepare w) (\<lambda>_. priv_execute_substep j w)"

text \<open>
  \<^verbatim>\<open>execute_substep\<close>, lines 67 to 83: the result goes out on a socket opened for this
  call and closed in the \<^verbatim>\<open>finally\<close> block. A failing assertion leaves before the
  \<^verbatim>\<open>try\<close> statement.
\<close>

definition execute_substep :: "job \<Rightarrow> world \<Rightarrow> unit comp" where
  "execute_substep j w s =
     (if \<not> asserts_hold j then (Inl (OtherException ''AssertionError'' None), s)
      else case priv_execute_substep_call j w (log ResultSocketConnect s) of
             (Inr res, s1) \<Rightarrow> (Inr (), log ResultSocketClose (log (ResultSend res) s1))
           | (Inl e, s1) \<Rightarrow> (Inl e, log ResultSocketClose s1))"

section \<open>The substep worker\<close>

text \<open>
  What \<^verbatim>\<open>recv_pyobj\<close> on the master socket does, call by call: it returns the next
  object, or the handler that \<^verbatim>\<open>run\<close> installed for \<^verbatim>\<open>SIGTERM\<close> raises while the
  worker waits (a keyboard interrupt does the same). When the list is used up, the
  worker waits for ever.
\<close>

datatype 'm sock_event = Deliver 'm | Interrupt exn

datatype ending = Finished | Raised exn | Blocked | OutOfFuel

text \<open>
  \<^verbatim>\<open>SoS_SubStep_Worker.run\<close>, lines 234 to 241. A message is the keyword arguments of
  \<^verbatim>\<open>execute_substep\<close>, here with the outcomes of the calls that job makes; \<open>None\<close> is a
  falsy message. The loop stands in no \<^verbatim>\<open>try\<close> statement: an exception leaves
  \<^verbatim>\<open>run\<close> from where it is raised. \<open>Finished\<close> is the \<^verbatim>\<open>break\<close>.
\<close>

fun substep_worker_loop :: "(job \<times> world) option sock_event list \<Rightarrow> state \<Rightarrow> ending \<times> state" where
  "substep_worker_loop [] s = (Blocked, log SendReady s)"
| "substep_worker_loop (Interrupt e # evs) s = (Raised e, log SendReady s)"
| "substep_worker_loop (Deliver None # evs) s = (Finished, log SendReady s)"
| "substep_worker_loop (Deliver (Some (j, w)) # evs) s =
     (case execute_substep j w (log SendReady s) of
        (Inl e, s1) \<Rightarrow> (Raised e, s1)
      | (Inr u, s1) \<Rightarrow> substep_worker_loop evs s1)"

text \<open>Lines 243 to 248, which follow the loop.\<close>

definition substep_worker_teardown :: "event list" where
  "substep_worker_teardown =
     [SigtermDefault, KillAllSubprocesses, CloseSocket ''substep result'',
      CloseSocket ''substep backend'', DisconnectControllers]"

definition SoS_SubStep_Worker_run :: "(job \<times> world) option sock_event list \<Rightarrow> state \<Rightarrow> ending \<times> state" where
  "SoS_SubStep_Worker_run evs s =
     (case substep_worker_loop evs s of
        (Finished, s1) \<Rightarrow> (Finished, fold log substep_worker_teardown s1)
      | (r, s1) \<Rightarrow> (r, s1))"

section \<open>The step worker\<close>

text \<open>
  A step process is a Python generator: resumed with a value, it yields a request
  (\<open>None\<close> for Python's \<^verbatim>\<open>None\<close>) and a new state, or stops, or raises.
  \<^verbatim>\<open>next(runner)\<close> is \<^verbatim>\<open>runner.send(None)\<close>.
\<close>

datatype ('q, 's) resumed = Yield "'q option" 's | StopIteration | Raise exn

type_synonym ('s, 'q, 'm) generator = "'s \<Rightarrow> 'm option \<Rightarrow> ('q, 's) resumed"

text \<open>
  One turn of the relay loop: the request it handled, whether it called
  \<^verbatim>\<open>recv_pyobj\<close>, and the value it sent into the generator.
\<close>

record ('q, 'm) turn =
  request :: "'q option"
  received :: bool
  sent :: "'m option"

text \<open>
  \<^verbatim>\<open>SoS_Worker.run\<close>, lines 106 to 114: the loop that follows \<^verbatim>\<open>requested = next(runner)\<close>.
  It may run for ever, so it is given fuel. The result is how the loop ends, what is
  left on the socket, and the turns taken.
\<close>

fun relay_loop ::
  "nat \<Rightarrow> ('s, 'q, 'm) generator \<Rightarrow> 's \<Rightarrow> 'q option \<Rightarrow> 'm option sock_event list
     \<Rightarrow> ending \<times> 'm option sock_event list \<times> ('q, 'm) turn list" where
  "relay_loop 0 runner s requested inbox = (OutOfFuel, inbox, [])"
| "relay_loop (Suc n) runner s requested inbox =
     (case requested of
        Some q \<Rightarrow>
          (case inbox of
             [] \<Rightarrow> (Blocked, [], [])
           | Interrupt e # rest \<Rightarrow> (Raised e, rest, [])
           | Deliver m # rest \<Rightarrow>
               (let t = \<lparr>request = requested, received = True, sent = m\<rparr> in
                case runner s m of
                  Yield requested' s' \<Rightarrow>
                    (case relay_loop n runner s' requested' rest of (r, inbox', ts) \<Rightarrow> (r, inbox', t # ts))
                | StopIteration \<Rightarrow> (Finished, rest, [t])
                | Raise e \<Rightarrow> (Raised e, rest, [t])))
      | None \<Rightarrow>
          (let t = \<lparr>request = requested, received = False, sent = None\<rparr> in
           case runner s None of
             Yield requested' s' \<Rightarrow>
               (case relay_loop n runner s' requested' inbox of (r, inbox', ts) \<Rightarrow> (r, inbox', t # ts))
           | StopIteration \<Rightarrow> (Finished, inbox, [t])
           | Raise e \<Rightarrow> (Raised e, inbox, [t])))"

text \<open>
  The requests a generator yields when it is resumed with the values \<open>ys\<close> in turn, and
  how it answers the last of them.
\<close>

fun yields :: "('s, 'q, 'm) generator \<Rightarrow> 's \<Rightarrow> 'm option list \<Rightarrow> 'q option list" where
  "yields runner s [] = []"
| "yields runner s (y # ys) =
     (case runner s y of Yield req s' \<Rightarrow> req # yields runner s' ys | _ \<Rightarrow> [])"

fun stops_at :: "('s, 'q, 'm) generator \<Rightarrow> 's \<Rightarrow> 'm option list \<Rightarrow> bool" where
  "stops_at runner s [] = False"
| "stops_at runner s [y] = (runner s y = StopIteration)"
| "stops_at runner s (y # ys) =
     (case runner s y of Yield req s' \<Rightarrow> stops_at runner s' ys | _ \<Rightarrow> False)"

text \<open>
  The request that waits for an answer after the generator, which first asked for
  \<open>requested\<close>, has been resumed with the values \<open>ys\<close> in turn: \<open>None\<close> when the
  generator has stopped or raised on the way. And whether the generator raises \<open>e\<close> on
  the last of the values.
\<close>

fun pending :: "('s, 'q, 'm) generator \<Rightarrow> 's \<Rightarrow> 'q option \<Rightarrow> 'm option list \<Rightarrow> 'q option option" where
  "pending runner s requested [] = Some requested"
| "pending runner s requested (y # ys) =
     (case runner s y of Yield req s' \<Rightarrow> pending runner s' req ys | _ \<Rightarrow> None)"

fun raises_at :: "('s, 'q, 'm) generator \<Rightarrow> 's \<Rightarrow> 'm option list \<Rightarrow> exn \<Rightarrow> bool" where
  "raises_at runner s [] e = False"
| "raises_at runner s [y] e = (runner s y = Raise e)"
| "raises_at runner s (y # ys) e =
     (case runner s y of Yield req s' \<Rightarrow> raises_at runner s' ys e | _ \<Rightarrow> False)"

text \<open>
  \<^verbatim>\<open>run_step\<close>, lines 197 to 204: the generator \<^verbatim>\<open>run_step\<close> hands every request of the
  step executor's generator on, and every value it is resumed with back.
\<close>

definition run_step_send :: "('s, 'q, 'm) generator \<Rightarrow> ('s, 'q, 'm) generator" where
  "run_step_send runner s yres =
     (case runner s yres of
        Yield yreq s' \<Rightarrow> Yield yreq s'
      | StopIteration \<Rightarrow> StopIteration
      | Raise e \<Rightarrow> Raise e)"

text \<open>
  Modelled from the spec: \<^verbatim>\<open>WorkflowDict.quick_update\<close> is declared in \<^verbatim>\<open>sos/utils.py\<close>,
  which is not among the sources. The spec calls it a merge into the namespace: the
  update of a dict, where the keys of the argument replace those of the namespace.
\<close>

definition quick_update :: "(string \<rightharpoonup> 'v) \<Rightarrow> (string \<rightharpoonup> 'v) \<Rightarrow> (string \<rightharpoonup> 'v)" where
  "quick_update d obj = d ++ obj"

text \<open>Lines 184 to 186.\<close>

definition clear_existing_keys :: "(string \<rightharpoonup> 'v) \<Rightarrow> (string \<rightharpoonup> 'v)" where
  "clear_existing_keys d =
     fold (\<lambda>k d. if d k \<noteq> None then d(k := None) else d)
          [''__step_input__'', ''__default_output__'', ''__step_output__''] d"

text \<open>Lines 184 to 192: the namespace of the step, from the one the global definitions left.\<close>

definition run_step_namespace ::
  "(string \<rightharpoonup> 'v) \<Rightarrow> (string \<rightharpoonup> 'v) \<Rightarrow> (string \<rightharpoonup> 'v) \<Rightarrow> (string \<rightharpoonup> 'v)" where
  "run_step_namespace d shared context =
     quick_update (quick_update (clear_existing_keys d) shared) context"

text \<open>
  An object received on the master socket that is not \<^verbatim>\<open>None\<close>: a tuple whose first
  element is \<^verbatim>\<open>'step'\<close>, here with the state the step process starts in, or any other
  object, which the head of the loop takes for a workflow.

  What a step worker is given: \<open>global_def\<close> is what \<^verbatim>\<open>SoS_exec(section.global_def)\<close>
  raises for a step, \<open>executor_run\<close> the generator of \<^verbatim>\<open>Step_Executor.run\<close>,
  \<open>run_as_nested\<close> what the nested executor of a workflow raises inside the \<^verbatim>\<open>try\<close>
  statement of \<^verbatim>\<open>run_workflow\<close>, \<open>pk_is_Exception\<close> whether \<^verbatim>\<open>ProcessKilled\<close> derives
  from \<^verbatim>\<open>Exception\<close>.
\<close>

datatype ('s, 'p) message = Step 's | Other 'p

record ('s, 'q, 'p) step_world =
  global_def :: "'s \<Rightarrow> exn option"
  executor_run :: "('s, 'q, ('s, 'p) message) generator"
  run_as_nested :: "'p \<Rightarrow> exn option"
  pk_is_Exception :: bool

text \<open>
  \<^verbatim>\<open>next(runner)\<close> on the generator of \<^verbatim>\<open>run_step\<close>, lines 159 to 199: the global
  definitions run first, where a \<^verbatim>\<open>CalledProcessError\<close> becomes a \<^verbatim>\<open>RuntimeError\<close>
  of its \<^verbatim>\<open>stderr\<close>.
\<close>

definition run_step_next :: "('s, 'q, 'p) step_world \<Rightarrow> 's \<Rightarrow> ('q, 's) resumed" where
  "run_step_next sw section =
     (case global_def sw section of
        Some (CalledProcessError rc err) \<Rightarrow> Raise (RuntimeError err)
      | Some e \<Rightarrow> Raise e
      | None \<Rightarrow> run_step_send (executor_run sw) section None)"

text \<open>\<^verbatim>\<open>run_workflow\<close>, lines 153 to 157.\<close>

definition run_workflow :: "('s, 'q, 'p) step_world \<Rightarrow> 'p \<Rightarrow> unit comp" where
  "run_workflow sw wflow =
     (case run_as_nested sw wflow of
        None \<Rightarrow> returns ()
      | Some e \<Rightarrow> if isinstance_Exception (pk_is_Exception sw) e then emit (MasterSend e) else raise e)"

text \<open>
  \<^verbatim>\<open>SoS_Worker.run\<close>, lines 90 to 125: the loop, with fuel. \<open>Finished\<close> is a
  \<^verbatim>\<open>break\<close>; \<open>Raised\<close> an exception that neither \<^verbatim>\<open>except\<close> clause catches.
\<close>

definition except_break :: "exn \<Rightarrow> ending" where
  "except_break e = (if e = ProcessKilled \<or> e = KeyboardInterrupt then Finished else Raised e)"

fun worker_loop ::
  "nat \<Rightarrow> ('s, 'q, 'p) step_world \<Rightarrow> ('s, 'p) message option sock_event list \<Rightarrow> state \<Rightarrow> ending \<times> state" where
  "worker_loop 0 sw inbox s = (OutOfFuel, s)"
| "worker_loop (Suc n) sw [] s = (Blocked, s)"
| "worker_loop (Suc n) sw (Interrupt e # inbox) s = (except_break e, s)"
| "worker_loop (Suc n) sw (Deliver None # inbox) s = (Finished, log SigtermDefault s)"
| "worker_loop (Suc n) sw (Deliver (Some (Step section)) # inbox) s =
     (case (case run_step_next sw section of
              Yield req s' \<Rightarrow> relay_loop n (run_step_send (executor_run sw)) s' req inbox
            | StopIteration \<Rightarrow> (Finished, inbox, [])
            | Raise e \<Rightarrow> (Raised e, inbox, [])) of
        (Finished, inbox', ts) \<Rightarrow> worker_loop n sw inbox' s
      | (Raised e, inbox', ts) \<Rightarrow> (except_break e, s)
      | (r, inbox', ts) \<Rightarrow> (r, s))"
| "worker_loop (Suc n) sw (Deliver (Some (Other wflow)) # inbox) s =
     (case run_workflow sw wflow s of
        (Inr u, s1) \<Rightarrow> worker_loop n sw inbox s1
      | (Inl e, s1) \<Rightarrow> (except_break e, s1))"

text \<open>Lines 127 to 130, which follow the loop.\<close>

definition worker_teardown :: "event list" where
  "worker_teardown =
     [KillAllSubprocesses, SigtermDefault, CloseSocket ''master'', DisconnectControllers]"

definition SoS_Worker_run ::
  "nat \<Rightarrow> ('s, 'q, 'p) step_world \<Rightarrow> ('s, 'p) message option sock_event list \<Rightarrow> state \<Rightarrow> ending \<times> state" where
  "SoS_Worker_run n sw inbox s =
     (case worker_loop n sw inbox s of
        (Finished, s1) \<Rightarrow> (Finished, fold log worker_teardown s1)
      | (r, s1) \<Rightarrow> (r, s1))"

section \<open>Reading a run\<close>

text \<open>The events recorded between two states of one run.\<close>

definition since :: "state \<Rightarrow> state \<Rightarrow> event list" where
  "since s s' = drop (length (trace s)) (trace s')"



text \<open>
  The events of the \<^verbatim>\<open>except\<close> clauses, and the computations that record no other
  event and leave the variable \<open>sig\<close> alone.
\<close>

fun is_handler_event :: "event \<Rightarrow> bool" where
  "is_handler_event ClearOutput = True"
| "is_handler_event (LogInfoKilling ps) = True"
| "is_handler_event LogInfoNoSubprocess = True"
| "is_handler_event (Terminate p) = True"
| "is_handler_event (WaitProcs ps t) = True"
| "is_handler_event (Kill p) = True"
| "is_handler_event (LogWarningFailedToKill p) = True"
| "is_handler_event ev = False"

definition handler_only :: "'a comp \<Rightarrow> bool" where
  "handler_only m =
     (\<forall>s. sig (snd (m s)) = sig s
        \<and> (\<exists>evs. trace (snd (m s)) = trace s @ evs \<and> list_all is_handler_event evs))"

fun is_ResultSend :: "event \<Rightarrow> bool" where
  "is_ResultSend (ResultSend res) = True"
| "is_ResultSend ev = False"

fun is_SigLock :: "event \<Rightarrow> bool" where
  "is_SigLock (SigLock l) = True"
| "is_SigLock ev = False"

text \<open>A call of \<^verbatim>\<open>sig.write()\<close> that returned.\<close>

fun is_written :: "event \<Rightarrow> bool" where
  "is_written (SigWrite (Inr b)) = True"
| "is_written ev = False"

text \<open>A worker that has just started, a job and the outcomes of an uneventful run.\<close>

definition idle_state :: state where
  "idle_state = \<lparr>sys_stdout = WorkerStream, sys_stderr = WorkerStream, worker_stdout = [],
     worker_stderr = [], trace = [], sig = False, outmsg = [], errmsg = []\<rparr>"

definition example_job :: job where
  "example_job = \<lparr>stmt = ''x=1+1'', v_index = 0, v_step_id = ''step_1'', v_output = [''a.txt''],
     v_output_unspecified = False, sig_mode = ''default'', capture_output = True,
     asserts_hold = True\<rparr>"

definition example_world :: world where
  "example_world = \<lparr>ProcessKilled_is_Exception = True, prepare_env = None,
     validate_step_sig = Inr None,
     sig_lock = None, verify_input = None, SoS_exec_stdout = ''hello'', SoS_exec_stderr = [],
     SoS_exec = None, step_output_undetermined = False, reevaluate_output = Inr [],
     sig_set_output = None, sig_write = Inr True, sig_content_output = [''a.txt''],
     sig_content_end_context = [], tb = [], script_of = (\<lambda>f. []), children = Inr [7, 8],
     terminate = (\<lambda>p. None), alive_after_terminate = Inr [8], kill = (\<lambda>p. None),
     alive_after_kill = Inr [], verbosity = 2\<rparr>"


text \<open>
  A step process for the examples: it asks for nothing first, then for \<^verbatim>\<open>again\<close>, and
  stops when it is resumed the third time.
\<close>

definition example_runner :: "(nat, string, string) generator" where
  "example_runner s y =
     (if s = 0 then Yield None 1 else if s = 1 then Yield (Some ''again'') 2 else StopIteration)"

section \<open>Facts about the building blocks\<close>

lemma log_simps [simp]:
  "trace (log ev s) = trace s @ [ev]" "sig (log ev s) = sig s"
  "outmsg (log ev s) = outmsg s" "errmsg (log ev s) = errmsg s"
  "sys_stdout (log ev s) = sys_stdout s" "sys_stderr (log ev s) = sys_stderr s"
  by (simp_all add: log_def)

lemma fold_log_trace [simp]: "trace (fold (\<lambda>p. log (f p)) ps s) = trace s @ map f ps"
  by (induction ps arbitrary: s) simp_all

lemma fold_log_sig [simp]: "sig (fold (\<lambda>p. log (f p)) ps s) = sig s"
  by (induction ps arbitrary: s) simp_all

lemma write_stdout_simps [simp]:
  "trace (write_stdout t s) = trace s" "sig (write_stdout t s) = sig s"
  "outmsg (write_stdout t s) = outmsg s" "errmsg (write_stdout t s) = errmsg s"
  "sys_stderr (write_stdout t s) = sys_stderr s"
  by (simp_all add: write_stdout_def split: stream.splits)

lemma write_stderr_simps [simp]:
  "trace (write_stderr t s) = trace s" "sig (write_stderr t s) = sig s"
  "outmsg (write_stderr t s) = outmsg s" "errmsg (write_stderr t s) = errmsg s"
  "sys_stdout (write_stderr t s) = sys_stdout s"
  by (simp_all add: write_stderr_def split: stream.splits)

lemma since_append [simp]: "trace s' = trace s @ evs \<Longrightarrow> since s s' = evs"
  by (simp add: since_def)

lemma SoS_exec_stmt_eq:
  "SoS_exec_stmt j w s =
     (case SoS_exec w of None \<Rightarrow> Inr () | Some e \<Rightarrow> Inl e,
      write_stderr (SoS_exec_stderr w) (write_stdout (SoS_exec_stdout w) (log (Exec (stmt j)) s)))"
  by (simp add: SoS_exec_stmt_def Let_def split: option.splits)

lemma run_stmt_fst: "fst (run_stmt j w s) = (case SoS_exec w of None \<Rightarrow> Inr () | Some e \<Rightarrow> Inl e)"
  by (simp add: run_stmt_def stdoutIO_def bind_def SoS_exec_stmt_eq Let_def split: option.splits)

lemma run_stmt_trace: "trace (snd (run_stmt j w s)) = trace s @ [Exec (stmt j)]"
  by (simp add: run_stmt_def stdoutIO_def bind_def SoS_exec_stmt_eq Let_def split: option.splits)

lemma run_stmt_sig: "sig (snd (run_stmt j w s)) = sig s"
  by (simp add: run_stmt_def stdoutIO_def bind_def SoS_exec_stmt_eq Let_def split: option.splits)

lemmas unfold_comp = bind_def call_def emit_def returns_def raise_def split_beta

lemma execute_stmt_sig: "sig (snd (execute_stmt j w s)) = sig s"
  by (simp add: execute_stmt_def unfold_comp realized_output_def write_signature_def 
      run_stmt_fst run_stmt_sig split: option.split sum.split)

text \<open>
  What \<open>execute_stmt\<close> records: no lock, no release, no result; and when it raises, no
  \<^verbatim>\<open>sig.write()\<close> has returned.
\<close>

lemma execute_stmt_trace:
  "\<exists>evs. trace (snd (execute_stmt j w s)) = trace s @ evs
     \<and> (\<forall>ev \<in> set evs. \<not> is_SigLock ev \<and> \<not> is_ResultSend ev \<and> ev \<noteq> SigRelease)
     \<and> (\<forall>e. fst (execute_stmt j w s) = Inl e \<longrightarrow> (\<forall>ev \<in> set evs. \<not> is_written ev))"
  by (simp add: execute_stmt_def unfold_comp realized_output_def write_signature_def 
      run_stmt_fst run_stmt_sig run_stmt_trace split: option.split sum.split)

lemma try_body_trace:
  "\<exists>evs. trace (snd (try_body j w s)) = trace s @ evs
     \<and> (\<forall>ev \<in> set evs. \<not> is_ResultSend ev \<and> ev \<noteq> SigRelease)
     \<and> ((\<exists>ev \<in> set evs. is_SigLock ev) \<longrightarrow> sig (snd (try_body j w s)))
     \<and> (\<forall>e. fst (try_body j w s) = Inl e \<longrightarrow>
           (\<forall>ev \<in> set evs. \<not> is_written ev) \<and> sig (snd (try_body j w s)) = sig s)"
proof -
  obtain evs where evs: "trace (snd (execute_stmt j w s)) = trace s @ evs"
    "\<forall>ev \<in> set evs. \<not> is_SigLock ev \<and> \<not> is_ResultSend ev \<and> ev \<noteq> SigRelease"
    "\<forall>e. fst (execute_stmt j w s) = Inl e \<longrightarrow> (\<forall>ev \<in> set evs. \<not> is_written ev)"
    using execute_stmt_trace by blast
  obtain evs' where evs': "trace (snd (execute_stmt j w (log (SigLock None) s))) = trace s @ SigLock None # evs'"
    "\<forall>ev \<in> set evs'. \<not> is_SigLock ev \<and> \<not> is_ResultSend ev \<and> ev \<noteq> SigRelease"
    "\<forall>e. fst (execute_stmt j w (log (SigLock None) s)) = Inl e \<longrightarrow> (\<forall>ev \<in> set evs'. \<not> is_written ev)"
    using execute_stmt_trace[of j w "log (SigLock None) s"] by auto
  show ?thesis
  proof (cases "sig s")
    case False
    then show ?thesis using evs by (auto simp: try_body_def execute_stmt_sig)
  next
    case True
    show ?thesis
    proof (cases "validate_step_sig w")
      case (Inl e)
      then show ?thesis using True by (simp add: try_body_def unfold_comp)
    next
      case (Inr mo)
      show ?thesis
      proof (cases mo)
        case (Some m)
        then show ?thesis using True Inr by (simp add: try_body_def unfold_comp)
      next
        case None
        show ?thesis
        proof (cases "sig_lock w")
          case (Some e)
          then show ?thesis using True Inr None by (simp add: try_body_def unfold_comp)
        next
          case N: None
          have "try_body j w s = execute_stmt j w (log (SigLock None) s)"
            using True Inr None N by (simp add: try_body_def unfold_comp)
          then show ?thesis using evs' True by (auto simp: execute_stmt_sig)
        qed
      qed
    qed
  qed
qed

lemma is_handler_event_plain:
  "is_handler_event ev \<Longrightarrow>
     \<not> is_SigLock ev \<and> \<not> is_written ev \<and> \<not> is_ResultSend ev \<and> ev \<noteq> SigRelease"
  by (cases ev) simp_all

lemma handler_only_returns: "handler_only (returns x)"
  by (simp add: handler_only_def returns_def)

lemma handler_only_raise: "handler_only (raise e)"
  by (simp add: handler_only_def raise_def)

lemma handler_only_emit: "is_handler_event ev \<Longrightarrow> handler_only (emit ev)"
  by (simp add: handler_only_def emit_def)

lemma handler_only_call: "is_handler_event ev \<Longrightarrow> handler_only (call ev r)"
  by (simp add: handler_only_def call_def split: option.split)

lemma handler_only_bind:
  assumes "handler_only m" and "\<And>x. handler_only (f x)"
  shows "handler_only (bind m f)"
  unfolding handler_only_def
proof
  fix s
  obtain r s1 where m: "m s = (r, s1)"
    by (cases "m s")
  obtain evs where evs: "sig s1 = sig s" "trace s1 = trace s @ evs" "list_all is_handler_event evs"
    using assms(1) m unfolding handler_only_def by (metis snd_conv)
  show "sig (snd (bind m f s)) = sig s
      \<and> (\<exists>evs. trace (snd (bind m f s)) = trace s @ evs \<and> list_all is_handler_event evs)"
  proof (cases r)
    case (Inl e)
    then show ?thesis using m evs by (simp add: bind_def)
  next
    case (Inr x)
    obtain evs' where evs': "sig (snd (f x s1)) = sig s1" "trace (snd (f x s1)) = trace s1 @ evs'"
      "list_all is_handler_event evs'"
      using assms(2)[of x] unfolding handler_only_def by blast
    have "trace (snd (bind m f s)) = trace s @ (evs @ evs')"
      using m Inr evs(2) evs'(2) by (simp add: bind_def)
    moreover have "list_all is_handler_event (evs @ evs')"
      using evs(3) evs'(3) by simp
    moreover have "sig (snd (bind m f s)) = sig s"
      using m Inr evs(1) evs'(1) by (simp add: bind_def)
    ultimately show ?thesis by blast
  qed
qed

lemma handler_only_for_each: "(\<And>p. handler_only (f p)) \<Longrightarrow> handler_only (for_each f ps)"
  by (induction ps) (simp_all add: handler_only_returns handler_only_bind)

lemma handler_only_wait_procs: "handler_only (wait_procs procs r)"
  unfolding wait_procs_def
  by (intro handler_only_bind handler_only_emit)
     (simp_all add: handler_only_raise handler_only_returns split: sum.split)

lemma handler_only_kill_subprocesses: "handler_only (kill_subprocesses w)"
  unfolding kill_subprocesses_def
  by (auto split: sum.split
      intro!: handler_only_bind handler_only_for_each handler_only_wait_procs handler_only_emit
        handler_only_call handler_only_returns handler_only_raise)

lemma handler_only_failure_result: "handler_only (failure_result j rc e)"
  by (simp add: handler_only_def failure_result_def Let_def)

lemma handler_only_except_clauses: "handler_only (except_clauses j w e)"
  unfolding except_clauses_def
  by (auto split: exn.split
      intro!: handler_only_bind handler_only_kill_subprocesses handler_only_emit
        handler_only_failure_result handler_only_returns handler_only_raise)

lemma except_clauses_sig: "sig (snd (except_clauses j w e s)) = sig s"
  using handler_only_except_clauses[of j w e] by (simp add: handler_only_def)

lemma except_clauses_trace:
  "\<exists>evs. trace (snd (except_clauses j w e s)) = trace s @ evs
     \<and> (\<forall>ev \<in> set evs. \<not> is_SigLock ev \<and> \<not> is_written ev \<and> \<not> is_ResultSend ev \<and> ev \<noteq> SigRelease)"
proof -
  obtain evs where "trace (snd (except_clauses j w e s)) = trace s @ evs"
    "list_all is_handler_event evs"
    using handler_only_except_clauses[of j w e] unfolding handler_only_def by blast
  then show ?thesis
    using is_handler_event_plain by (auto simp: list_all_iff)
qed








lemma enter_simps [simp]:
  "trace (enter j s) = trace s" "sig (enter j s) = (\<not> (sig_mode j = ''ignore'' \<or> v_output_unspecified j))"
  "outmsg (enter j s) = []" "errmsg (enter j s) = []"
  "sys_stdout (enter j s) = sys_stdout s" "sys_stderr (enter j s) = sys_stderr s"
  by (simp_all add: enter_def)

lemma finally_release_simps [simp]:
  "trace (finally_release s) = trace s @ (if sig s then [SigRelease] else [])"
  "sig (finally_release s) = sig s"
  by (simp_all add: finally_release_def)

lemma priv_execute_substep_raised:
  "try_body j w (enter j s) = (Inl e, s1) \<Longrightarrow>
   priv_execute_substep j w s =
     (fst (except_clauses j w e s1), finally_release (snd (except_clauses j w e s1)))"
  by (simp add: priv_execute_substep_def split_beta)

lemma priv_execute_substep_returned:
  "try_body j w (enter j s) = (Inr res, s1) \<Longrightarrow>
   priv_execute_substep j w s = (Inr res, finally_release s1)"
  by (simp add: priv_execute_substep_def)

lemma priv_execute_substep_run:
  "\<exists>evs. trace (snd (priv_execute_substep j w s))
            = trace s @ evs @ (if sig (snd (priv_execute_substep j w s)) then [SigRelease] else [])
     \<and> (\<forall>ev \<in> set evs. \<not> is_ResultSend ev \<and> ev \<noteq> SigRelease)
     \<and> ((\<exists>ev \<in> set evs. is_SigLock ev) \<longrightarrow> sig (snd (priv_execute_substep j w s)))
     \<and> (\<forall>e. fst (try_body j w (enter j s)) = Inl e \<longrightarrow>
           (\<forall>ev \<in> set evs. \<not> is_written ev)
           \<and> sig (snd (priv_execute_substep j w s)) = sig (enter j s))"
proof -
  obtain a s1 where t: "try_body j w (enter j s) = (a, s1)"
    by (cases "try_body j w (enter j s)")
  obtain tevs where tevs: "trace s1 = trace s @ tevs"
    "\<forall>ev \<in> set tevs. \<not> is_ResultSend ev \<and> ev \<noteq> SigRelease"
    "(\<exists>ev \<in> set tevs. is_SigLock ev) \<longrightarrow> sig s1"
    "\<forall>e. a = Inl e \<longrightarrow> (\<forall>ev \<in> set tevs. \<not> is_written ev) \<and> sig s1 = sig (enter j s)"
    using try_body_trace[of j w "enter j s"] t by auto
  show ?thesis
  proof (cases a)
    case (Inr res)
    then show ?thesis
      using t tevs by (simp add: priv_execute_substep_returned)
  next
    case (Inl e)
    obtain hevs where hevs: "trace (snd (except_clauses j w e s1)) = trace s1 @ hevs"
      "\<forall>ev \<in> set hevs. \<not> is_SigLock ev \<and> \<not> is_written ev \<and> \<not> is_ResultSend ev \<and> ev \<noteq> SigRelease"
      using except_clauses_trace by blast
    have "trace (snd (priv_execute_substep j w s))
        = trace s @ (tevs @ hevs) @ (if sig (snd (priv_execute_substep j w s)) then [SigRelease] else [])"
      using t Inl tevs(1) hevs(1) by (simp add: priv_execute_substep_raised except_clauses_sig)
    moreover have "\<forall>ev \<in> set (tevs @ hevs). \<not> is_ResultSend ev \<and> ev \<noteq> SigRelease"
      using tevs(2) hevs(2) by auto
    moreover have "(\<exists>ev \<in> set (tevs @ hevs). is_SigLock ev) \<longrightarrow> sig (snd (priv_execute_substep j w s))"
      using t Inl tevs(3) hevs(2) by (auto simp: priv_execute_substep_raised except_clauses_sig)
    moreover have "\<forall>e. fst (try_body j w (enter j s)) = Inl e \<longrightarrow>
           (\<forall>ev \<in> set (tevs @ hevs). \<not> is_written ev)
           \<and> sig (snd (priv_execute_substep j w s)) = sig (enter j s)"
      using t Inl tevs(4) hevs(2) by (auto simp: priv_execute_substep_raised except_clauses_sig)
    ultimately show ?thesis by blast
  qed
qed

lemmas run_defs = priv_execute_substep_def priv_execute_substep_call_def prepare_def
  execute_substep_def try_body_def execute_stmt_def
  except_clauses_def run_stmt_def stdoutIO_def SoS_exec_stmt_def write_stdout_def write_stderr_def
  kill_subprocesses_def wait_procs_def enter_def finally_release_def realized_output_def
  write_signature_def
  failure_result_def uncaught_error_def frames_msg_def dict_update_def unfold_comp log_def Let_def
  example_job_def example_world_def idle_state_def

text \<open>
  When the statement returns, \<^verbatim>\<open>stdoutIO\<close> puts the two streams back and the text
  written meanwhile is in \<^verbatim>\<open>outmsg\<close> and \<^verbatim>\<open>errmsg\<close>.
\<close>

lemma stdoutIO_restores_when_statement_returns:
  assumes "capture_output j" and "SoS_exec w = None"
  shows "run_stmt j w s =
    (Inr (), s\<lparr>trace := trace s @ [Exec (stmt j)],
               outmsg := SoS_exec_stdout w, errmsg := SoS_exec_stderr w\<rparr>)"
  using assms
  by (simp add: run_stmt_def stdoutIO_def SoS_exec_stmt_def write_stdout_def write_stderr_def
      unfold_comp log_def Let_def)

text \<open>
  When the statement raises, the streams stay on the buffers of the call, and
  \<^verbatim>\<open>outmsg\<close> and \<^verbatim>\<open>errmsg\<close> are not assigned.
\<close>

lemma stdoutIO_leaks_when_statement_raises:
  assumes "capture_output j" and "SoS_exec w = Some e"
  shows "run_stmt j w s =
    (Inl e, s\<lparr>sys_stdout := StringIO (SoS_exec_stdout w), sys_stderr := StringIO (SoS_exec_stderr w),
              trace := trace s @ [Exec (stmt j)]\<rparr>)"
  using assms
  by (simp add: run_stmt_def stdoutIO_def SoS_exec_stmt_def write_stdout_def write_stderr_def
      unfold_comp log_def Let_def)

text \<open>
  In \<^verbatim>\<open>SoS_Worker.run\<close> a \<^verbatim>\<open>ProcessKilled\<close> or a \<^verbatim>\<open>KeyboardInterrupt\<close> that reaches
  the loop breaks it, and the lines after the loop run. The substep worker runs the
  lines after its loop when it is told to stop.
\<close>

lemma worker_killed_tears_down:
  assumes "e = ProcessKilled \<or> e = KeyboardInterrupt"
  shows "SoS_Worker_run (Suc n) sw (Interrupt e # inbox) s
    = (Finished, s\<lparr>trace := trace s @ [KillAllSubprocesses, SigtermDefault, CloseSocket ''master'',
                                        DisconnectControllers]\<rparr>)"
  using assms by (auto simp: SoS_Worker_run_def except_break_def worker_teardown_def log_def)

lemma substep_worker_stopped_tears_down:
  "SoS_SubStep_Worker_run (Deliver None # evs) s
    = (Finished, s\<lparr>trace := trace s @ [SendReady, SigtermDefault, KillAllSubprocesses,
         CloseSocket ''substep result'', CloseSocket ''substep backend'', DisconnectControllers]\<rparr>)"
  by (simp add: SoS_SubStep_Worker_run_def substep_worker_teardown_def log_def)

lemma run_step_send_eq: "run_step_send runner = runner"
  by (auto simp: run_step_send_def fun_eq_iff split: resumed.splits)

lemma clear_existing_keys_apply:
  "clear_existing_keys d k =
     (if k \<in> set [''__step_input__'', ''__default_output__'', ''__step_output__''] then None else d k)"
  by (auto simp: clear_existing_keys_def)

lemma stops_at_Cons:
  "stops_at runner s (y # ys) =
     (case runner s y of
        Yield req s' \<Rightarrow> stops_at runner s' ys
      | StopIteration \<Rightarrow> ys = []
      | Raise e \<Rightarrow> False)"
  by (cases ys) (auto split: resumed.splits)

lemma raises_at_Cons:
  "raises_at runner s (y # ys) e =
     (case runner s y of
        Yield req s' \<Rightarrow> raises_at runner s' ys e
      | StopIteration \<Rightarrow> False
      | Raise e' \<Rightarrow> ys = [] \<and> e' = e)"
  by (cases ys) (auto split: resumed.splits)

lemma relay_loop_run:
  "relay_loop n runner s requested inbox = (r, inbox', ts) \<Longrightarrow>
     (\<forall>t \<in> set ts. (request t \<noteq> None \<longrightarrow> received t)
                   \<and> (request t = None \<longrightarrow> \<not> received t \<and> sent t = None))
     \<and> map request ts = take (length ts) (requested # yields runner s (map sent ts))
     \<and> (r = Finished) = stops_at runner s (map sent ts)
     \<and> (inbox = map Deliver (map sent (filter received ts)) @ inbox'
        \<or> (\<exists>e. r = Raised e \<and> inbox = map Deliver (map sent (filter received ts)) @ Interrupt e # inbox'))
     \<and> length ts \<le> n
     \<and> (r = OutOfFuel \<longrightarrow>
          length ts = n \<and> pending runner s requested (map sent ts) \<noteq> None)
     \<and> (r = Blocked \<longrightarrow>
          inbox' = [] \<and> (\<exists>q. pending runner s requested (map sent ts) = Some (Some q)))
     \<and> (\<forall>e. r = Raised e \<longrightarrow>
          raises_at runner s (map sent ts) e
          \<or> (\<exists>q. pending runner s requested (map sent ts) = Some (Some q))
             \<and> inbox = map Deliver (map sent (filter received ts)) @ Interrupt e # inbox')"
proof (induction n arbitrary: s requested inbox r inbox' ts)
  case 0
  then show ?case by auto
next
  case (Suc n)
  show ?case
  proof (cases requested)
    case None
    show ?thesis
    proof (cases "runner s None")
      case (Yield req' s')
      obtain r0 i0 ts0 where rec: "relay_loop n runner s' req' inbox = (r0, i0, ts0)"
        by (cases "relay_loop n runner s' req' inbox")
      show ?thesis
        using Suc.prems None Yield rec Suc.IH[OF rec]
        by (auto simp: Let_def stops_at_Cons raises_at_Cons)
    next
      case StopIteration
      then show ?thesis using Suc.prems None by (auto simp: Let_def)
    next
      case (Raise e)
      then show ?thesis using Suc.prems None by (auto simp: Let_def)
    qed
  next
    case (Some q)
    show ?thesis
    proof (cases inbox)
      case Nil
      then show ?thesis using Suc.prems Some by auto
    next
      case (Cons ev rest)
      show ?thesis
      proof (cases ev)
        case (Interrupt e)
        then show ?thesis using Suc.prems Some Cons by auto
      next
        case (Deliver m)
        show ?thesis
        proof (cases "runner s m")
          case (Yield req' s')
          obtain r0 i0 ts0 where rec: "relay_loop n runner s' req' rest = (r0, i0, ts0)"
            by (cases "relay_loop n runner s' req' rest")
          show ?thesis
            using Suc.prems Some Cons Deliver Yield rec Suc.IH[OF rec]
            by (auto simp: Let_def stops_at_Cons raises_at_Cons)
        next
          case StopIteration
          then show ?thesis using Suc.prems Some Cons Deliver by (auto simp: Let_def)
        next
          case (Raise e)
          then show ?thesis using Suc.prems Some Cons Deliver by (auto simp: Let_def)
        qed
      qed
    qed
  qed
qed

section \<open>The claims\<close>

text \<open>
  C1. Whenever a call of \<^verbatim>\<open>_execute_substep\<close> reaches \<^verbatim>\<open>sig.lock()\<close>, whether the lock
  is acquired (\<open>l = None\<close>) or the call raises, and however the call of
  \<^verbatim>\<open>_execute_substep\<close> ends (a result, or any exception that leaves it), the last
  thing it does is \<^verbatim>\<open>sig.release\<close>, after the lock call.
\<close>

theorem lock_released_on_every_exit:
  assumes "priv_execute_substep j w s = (r, s')"
    and "SigLock l \<in> set (since s s')"
  shows "trace s' = trace s @ since s s'
    \<and> (\<exists>pre. since s s' = pre @ [SigRelease] \<and> SigLock l \<in> set pre)"
proof -
  obtain evs where evs: "trace s' = trace s @ evs @ (if sig s' then [SigRelease] else [])"
    "(\<exists>ev \<in> set evs. is_SigLock ev) \<longrightarrow> sig s'"
    using priv_execute_substep_run[of j w s] assms(1) by auto
  have eq: "since s s' = evs @ (if sig s' then [SigRelease] else [])"
    using evs(1) by simp
  have "SigLock l \<in> set evs"
    using assms(2) eq by (auto split: if_splits)
  moreover from this have "sig s'"
    using evs(2) by force
  ultimately show ?thesis
    using evs(1) eq by simp
qed

theorem lock_released_on_every_exit_witness:
  "priv_execute_substep example_job (example_world\<lparr>SoS_exec := Some KeyboardInterrupt\<rparr>) idle_state
     = (Inl KeyboardInterrupt,
        idle_state\<lparr>sys_stdout := StringIO ''hello'', sys_stderr := StringIO [],
          trace := [SigLock None, VerifyInput, Exec ''x=1+1'', ClearOutput, Terminate 7, Terminate 8,
                    WaitProcs [7, 8] 3, Kill 8, WaitProcs [7, 8] 3, SigRelease],
          sig := True\<rparr>)
   \<and> (\<exists>pre. [SigLock None, VerifyInput, Exec ''x=1+1'', ClearOutput, Terminate 7, Terminate 8,
              WaitProcs [7, 8] 3, Kill 8, WaitProcs [7, 8] 3, SigRelease] = pre @ [SigRelease]
          \<and> SigLock None \<in> set pre)"
proof -
  have run: "priv_execute_substep example_job (example_world\<lparr>SoS_exec := Some KeyboardInterrupt\<rparr>) idle_state
     = (Inl KeyboardInterrupt,
        idle_state\<lparr>sys_stdout := StringIO ''hello'', sys_stderr := StringIO [],
          trace := [SigLock None, VerifyInput, Exec ''x=1+1'', ClearOutput, Terminate 7, Terminate 8,
                    WaitProcs [7, 8] 3, Kill 8, WaitProcs [7, 8] 3, SigRelease],
          sig := True\<rparr>)"
    by (simp add: run_defs)
  show ?thesis
    using lock_released_on_every_exit[OF run, of None] run
    by (simp add: since_def idle_state_def)
qed

text \<open>
  C2. When a Signature Record is constructed and \<^verbatim>\<open>validate_step_sig\<close> returns a
  matching record, \<^verbatim>\<open>_execute_substep\<close> returns the record's output and variables
  with \<^verbatim>\<open>ret_code\<close> 0 and \<^verbatim>\<open>sig_skipped\<close> 1, and all it does is send one
  \<^verbatim>\<open>substep_ignored\<close> progress event: no statement is executed, no lock is taken,
  none is released, and the streams are untouched.
\<close>

theorem matching_signature_is_skipped:
  assumes "sig_mode j \<noteq> ''ignore''" and "\<not> v_output_unspecified j"
    and "validate_step_sig w = Inr (Some m)"
  shows "priv_execute_substep j w s =
      (Inr [(''index'', VInt (v_index j)), (''ret_code'', VInt 0), (''sig_skipped'', VInt 1),
            (''output'', VTargets (matched_output m)), (''shared'', VContext (matched_vars m))],
       s\<lparr>trace := trace s @ [Progress ''substep_ignored'' (v_step_id j)],
         sig := False, outmsg := [], errmsg := []\<rparr>)
    \<and> since s (snd (priv_execute_substep j w s)) = [Progress ''substep_ignored'' (v_step_id j)]"
  using assms
  by (simp add: priv_execute_substep_def try_body_def enter_def finally_release_def unfold_comp
      log_def since_def)

theorem matching_signature_is_skipped_witness:
  "priv_execute_substep example_job
      (example_world\<lparr>validate_step_sig := Inr (Some \<lparr>matched_output = [''a.txt''], matched_vars = [(''n'', ''1'')]\<rparr>)\<rparr>)
      idle_state =
      (Inr [(''index'', VInt 0), (''ret_code'', VInt 0), (''sig_skipped'', VInt 1),
            (''output'', VTargets [''a.txt'']), (''shared'', VContext [(''n'', ''1'')])],
       idle_state\<lparr>trace := [Progress ''substep_ignored'' ''step_1'']\<rparr>)"
  using matching_signature_is_skipped[of example_job
      "example_world\<lparr>validate_step_sig := Inr (Some \<lparr>matched_output = [''a.txt''], matched_vars = [(''n'', ''1'')]\<rparr>)\<rparr>"
      "\<lparr>matched_output = [''a.txt''], matched_vars = [(''n'', ''1'')]\<rparr>" idle_state]
  by (simp add: example_job_def example_world_def idle_state_def)

text \<open>
  C3 fails on the code. A job with \<^verbatim>\<open>capture_output\<close> whose statement prints
  \<^verbatim>\<open>hello\<close> and then raises \<^verbatim>\<open>ValueError\<close>: the call returns with \<^verbatim>\<open>sys.stdout\<close> and
  \<^verbatim>\<open>sys.stderr\<close> still on its buffers, and its result holds empty text for
  \<^verbatim>\<open>stdout\<close>. The next job on this worker, which does not ask for capture, then
  writes into the buffer of the first: nothing reaches the worker's own stream.
\<close>

theorem stdout_redirection_outlives_failed_call:
  "priv_execute_substep example_job
      (example_world\<lparr>SoS_exec := Some (OtherException ''ValueError'' (Some ''bad value''))\<rparr>) idle_state
    = (Inr [(''index'', VInt 0), (''ret_code'', VInt 1),
            (''exception'', VExc (RuntimeError (Some ''ValueError: bad value''))),
            (''stdout'', VStr []), (''stderr'', VStr [])],
       idle_state\<lparr>sys_stdout := StringIO ''hello'', sys_stderr := StringIO [],
         trace := [SigLock None, VerifyInput, Exec ''x=1+1'', ClearOutput, SigRelease],
         sig := True\<rparr>)
   \<and> snd (priv_execute_substep (example_job\<lparr>capture_output := False\<rparr>) example_world
        (idle_state\<lparr>sys_stdout := StringIO ''hello'', sys_stderr := StringIO [],
           trace := [SigLock None, VerifyInput, Exec ''x=1+1'', ClearOutput, SigRelease],
           sig := True\<rparr>))
    = idle_state\<lparr>sys_stdout := StringIO ''hellohello'', sys_stderr := StringIO [],
        worker_stdout := [],
        trace := [SigLock None, VerifyInput, Exec ''x=1+1'', ClearOutput, SigRelease,
                  SigLock None, VerifyInput, Exec ''x=1+1'', SigSetOutput [''a.txt''],
                  SigWrite (Inr True), Progress ''substep_completed'' ''step_1'', SigRelease],
        sig := True\<rparr>"
  by (simp add: run_defs startswith_def)




text \<open>
  C5. When the body of the \<^verbatim>\<open>try\<close> statement raises one of the five structured signals,
  \<^verbatim>\<open>_execute_substep\<close> returns a result with \<^verbatim>\<open>ret_code\<close> 1 whose \<^verbatim>\<open>exception\<close> is
  the signal itself; no call of \<^verbatim>\<open>sig.write()\<close> has returned; and when a signature
  record exists (so whenever the lock was taken) the call ends with \<^verbatim>\<open>sig.release\<close>.
\<close>

theorem structured_failure_releases_and_does_not_write:
  assumes "try_body j w (enter j s) = (Inl e, s1)" and "is_signal e"
  shows "\<exists>res s'. priv_execute_substep j w s = (Inr res, s')
    \<and> map_of res ''ret_code'' = Some (VInt 1)
    \<and> map_of res ''exception'' = Some (VExc e)
    \<and> trace s' = trace s @ since s s'
    \<and> \<not> (\<exists>ev \<in> set (since s s'). is_written ev)
    \<and> ((\<exists>l. SigLock l \<in> set (since s s')) \<longrightarrow> last (since s s') = SigRelease)
    \<and> (sig_mode j \<noteq> ''ignore'' \<and> \<not> v_output_unspecified j \<longrightarrow> last (since s s') = SigRelease)"
proof -
  obtain r s' where run: "priv_execute_substep j w s = (r, s')"
    by (cases "priv_execute_substep j w s")
  obtain evs where evs: "trace s' = trace s @ evs @ (if sig s' then [SigRelease] else [])"
    "\<forall>ev \<in> set evs. \<not> is_ResultSend ev \<and> ev \<noteq> SigRelease"
    "(\<exists>ev \<in> set evs. is_SigLock ev) \<longrightarrow> sig s'"
    "\<forall>ev \<in> set evs. \<not> is_written ev" "sig s' = sig (enter j s)"
    using priv_execute_substep_run[of j w s] run assms(1) by auto
  have eq: "since s s' = evs @ (if sig s' then [SigRelease] else [])"
    using evs(1) by simp
  have r: "r = fst (except_clauses j w e s1)"
    using priv_execute_substep_raised[OF assms(1)] run by simp
  obtain res where res: "r = Inr res" "map_of res ''ret_code'' = Some (VInt 1)"
    "map_of res ''exception'' = Some (VExc e)"
    using assms(2) unfolding r
    by (cases e) (simp_all add: except_clauses_def unfold_comp failure_result_def dict_update_def Let_def)
  have "\<not> (\<exists>ev \<in> set (since s s'). is_written ev)"
    using evs(4) eq by auto
  moreover have "(\<exists>l. SigLock l \<in> set (since s s')) \<longrightarrow> last (since s s') = SigRelease"
    using evs(3) eq by (auto split: if_splits)
  moreover have "sig_mode j \<noteq> ''ignore'' \<and> \<not> v_output_unspecified j \<longrightarrow> last (since s s') = SigRelease"
    using evs(5) eq by simp
  ultimately show ?thesis
    using run res evs(1) eq by simp
qed

theorem structured_failure_releases_and_does_not_write_witness:
  "\<exists>res s'. priv_execute_substep example_job
        (example_world\<lparr>verify_input := Some (UnknownTarget ''missing.txt'')\<rparr>) idle_state = (Inr res, s')
    \<and> map_of res ''ret_code'' = Some (VInt 1)
    \<and> map_of res ''exception'' = Some (VExc (UnknownTarget ''missing.txt''))
    \<and> since idle_state s' = [SigLock None, VerifyInput, ClearOutput, SigRelease]"
proof -
  have t: "try_body example_job (example_world\<lparr>verify_input := Some (UnknownTarget ''missing.txt'')\<rparr>)
      (enter example_job idle_state)
    = (Inl (UnknownTarget ''missing.txt''),
       idle_state\<lparr>trace := [SigLock None, VerifyInput], sig := True\<rparr>)"
    by (simp add: run_defs)
  have run: "priv_execute_substep example_job
        (example_world\<lparr>verify_input := Some (UnknownTarget ''missing.txt'')\<rparr>) idle_state
     = (Inr [(''index'', VInt 0), (''ret_code'', VInt 1), (''exception'', VExc (UnknownTarget ''missing.txt'')),
             (''stdout'', VStr []), (''stderr'', VStr [])],
        idle_state\<lparr>trace := [SigLock None, VerifyInput, ClearOutput, SigRelease], sig := True\<rparr>)"
    by (simp add: run_defs)
  show ?thesis
    using structured_failure_releases_and_does_not_write[OF t] run
    by (simp add: since_def idle_state_def)
qed

text \<open>
  C6 fails on the code for the substep worker. \<^verbatim>\<open>SoS_SubStep_Worker.run\<close> has no
  \<^verbatim>\<open>try\<close> statement. When the handler raises \<^verbatim>\<open>ProcessKilled\<close> while the worker waits
  for a job, or in the statement of a job (if \<^verbatim>\<open>ProcessKilled\<close> does not derive from
  \<^verbatim>\<open>Exception\<close>), the exception leaves \<^verbatim>\<open>run\<close> and none of the lines after the loop
  runs. If \<^verbatim>\<open>ProcessKilled\<close> derives from \<^verbatim>\<open>Exception\<close> and is raised in the statement,
  the last clause of \<^verbatim>\<open>_execute_substep\<close> catches it: the worker sends a result with
  \<^verbatim>\<open>ret_code\<close> 1 and offers itself for the next job.
\<close>

theorem substep_worker_killed_without_teardown:
  "SoS_SubStep_Worker_run [Interrupt ProcessKilled] idle_state
     = (Raised ProcessKilled, idle_state\<lparr>trace := [SendReady]\<rparr>)
   \<and> SoS_SubStep_Worker_run
       [Deliver (Some (example_job,
          example_world\<lparr>ProcessKilled_is_Exception := False, SoS_exec := Some ProcessKilled\<rparr>))]
       idle_state
     = (Raised ProcessKilled,
        idle_state\<lparr>sys_stdout := StringIO ''hello'', sys_stderr := StringIO [],
          trace := [SendReady, ResultSocketConnect, SigLock None, VerifyInput, Exec ''x=1+1'',
                    SigRelease, ResultSocketClose],
          sig := True\<rparr>)
   \<and> SoS_SubStep_Worker_run
       [Deliver (Some (example_job,
          example_world\<lparr>ProcessKilled_is_Exception := True, SoS_exec := Some ProcessKilled\<rparr>))]
       idle_state
     = (Blocked,
        idle_state\<lparr>sys_stdout := StringIO ''hello'', sys_stderr := StringIO [],
          trace := [SendReady, ResultSocketConnect, SigLock None, VerifyInput, Exec ''x=1+1'',
                    ClearOutput, SigRelease,
                    ResultSend [(''index'', VInt 0), (''ret_code'', VInt 1),
                                (''exception'', VExc (RuntimeError (Some ''ProcessKilled: ''))),
                                (''stdout'', VStr []), (''stderr'', VStr [])],
                    ResultSocketClose, SendReady],
          sig := True\<rparr>)"
  by (simp add: SoS_SubStep_Worker_run_def run_defs startswith_def)

text \<open>
  C7. When the body of the \<^verbatim>\<open>try\<close> statement raises \<^verbatim>\<open>CalledProcessError\<close>,
  \<^verbatim>\<open>_execute_substep\<close> returns a result whose \<^verbatim>\<open>ret_code\<close> is the return code of
  the external process and whose \<^verbatim>\<open>exception\<close> is a \<^verbatim>\<open>RuntimeError\<close> made of the
  error's \<^verbatim>\<open>stderr\<close> alone; the other keys are \<^verbatim>\<open>index\<close> and, when output is
  captured, the two streams.
\<close>

theorem external_command_failure_result:
  assumes "try_body j w (enter j s) = (Inl (CalledProcessError returncode err), s1)"
  shows "\<exists>res s'. priv_execute_substep j w s = (Inr res, s')
    \<and> map_of res ''ret_code'' = Some (VInt returncode)
    \<and> map_of res ''exception'' = Some (VExc (RuntimeError err))
    \<and> map fst res = (if capture_output j
                       then [''index'', ''ret_code'', ''exception'', ''stdout'', ''stderr'']
                       else [''index'', ''ret_code'', ''exception''])"
  by (simp add: priv_execute_substep_raised[OF assms] except_clauses_def unfold_comp
      failure_result_def dict_update_def Let_def)

theorem external_command_failure_result_witness:
  "\<exists>res s'. priv_execute_substep example_job
        (example_world\<lparr>SoS_exec := Some (CalledProcessError 2 (Some ''no such file''))\<rparr>) idle_state
      = (Inr res, s')
    \<and> map_of res ''ret_code'' = Some (VInt 2)
    \<and> map_of res ''exception'' = Some (VExc (RuntimeError (Some ''no such file'')))
    \<and> map fst res = [''index'', ''ret_code'', ''exception'', ''stdout'', ''stderr'']"
proof -
  have t: "try_body example_job
      (example_world\<lparr>SoS_exec := Some (CalledProcessError 2 (Some ''no such file''))\<rparr>)
      (enter example_job idle_state)
    = (Inl (CalledProcessError 2 (Some ''no such file'')),
       idle_state\<lparr>sys_stdout := StringIO ''hello'', sys_stderr := StringIO [],
         trace := [SigLock None, VerifyInput, Exec ''x=1+1''], sig := True\<rparr>)"
    by (simp add: run_defs)
  show ?thesis
    using external_command_failure_result[OF t] by (simp add: example_job_def)
qed

text \<open>
  C8. The loop of \<^verbatim>\<open>SoS_Worker.run\<close> drives the generator of \<^verbatim>\<open>run_step\<close>, which
  hands on the requests of the step process \<open>runner\<close>. With fuel for \<open>n\<close> turns:
  \<^item> a request that is not \<^verbatim>\<open>None\<close> was answered by one \<^verbatim>\<open>recv_pyobj\<close>, a request
    that is \<^verbatim>\<open>None\<close> by no receive and the value \<^verbatim>\<open>None\<close>;
  \<^item> the requests are the initial one and then those the step process yields when it is
    resumed with the values sent, in this order;
  \<^item> the values received are the messages of the socket in their order, and what is
    left on the socket is the rest (after the interrupt, if one ended the loop);
  \<^item> the loop goes on until the step process stops: it has finished exactly when the
    step process has stopped on the last value sent, and it ends otherwise only when
    the fuel is used up (all \<open>n\<close> turns taken, the step process still asking), when a
    request that is not \<^verbatim>\<open>None\<close> waits and the socket is used up, when an interrupt
    arrives while such a request waits, or when the step process raises on the last
    value sent.
\<close>

theorem relay_loop_relays_every_request:
  assumes "relay_loop n (run_step_send runner) s requested inbox = (r, inbox', ts)"
  shows "(\<forall>t \<in> set ts. (request t \<noteq> None \<longrightarrow> received t)
                   \<and> (request t = None \<longrightarrow> \<not> received t \<and> sent t = None))
     \<and> map request ts = take (length ts) (requested # yields runner s (map sent ts))
     \<and> (r = Finished) = stops_at runner s (map sent ts)
     \<and> (inbox = map Deliver (map sent (filter received ts)) @ inbox'
        \<or> (\<exists>e. r = Raised e \<and> inbox = map Deliver (map sent (filter received ts)) @ Interrupt e # inbox'))
     \<and> length ts \<le> n
     \<and> (r = OutOfFuel \<longrightarrow>
          length ts = n \<and> pending runner s requested (map sent ts) \<noteq> None)
     \<and> (r = Blocked \<longrightarrow>
          inbox' = [] \<and> (\<exists>q. pending runner s requested (map sent ts) = Some (Some q)))
     \<and> (\<forall>e. r = Raised e \<longrightarrow>
          raises_at runner s (map sent ts) e
          \<or> (\<exists>q. pending runner s requested (map sent ts) = Some (Some q))
             \<and> inbox = map Deliver (map sent (filter received ts)) @ Interrupt e # inbox')"
  using relay_loop_run[of n runner s requested inbox r inbox' ts] assms
  unfolding run_step_send_eq by blast

theorem relay_loop_relays_every_request_witness:
  "relay_loop 5 (run_step_send example_runner) 0 (Some ''task'')
      [Deliver (Some ''done''), Deliver (Some ''ok''), Deliver None]
    = (Finished, [Deliver None],
       [\<lparr>request = Some ''task'', received = True, sent = Some ''done''\<rparr>,
        \<lparr>request = None, received = False, sent = None\<rparr>,
        \<lparr>request = Some ''again'', received = True, sent = Some ''ok''\<rparr>])
   \<and> stops_at example_runner 0 [Some ''done'', None, Some ''ok'']
   \<and> yields example_runner 0 [Some ''done'', None, Some ''ok''] = [None, Some ''again'']"
proof -
  have five: "(5::nat) = Suc (Suc (Suc (Suc (Suc 0))))"
    by simp
  have run: "relay_loop 5 (run_step_send example_runner) 0 (Some ''task'')
      [Deliver (Some ''done''), Deliver (Some ''ok''), Deliver None]
    = (Finished, [Deliver None],
       [\<lparr>request = Some ''task'', received = True, sent = Some ''done''\<rparr>,
        \<lparr>request = None, received = False, sent = None\<rparr>,
        \<lparr>request = Some ''again'', received = True, sent = Some ''ok''\<rparr>])"
    unfolding five by (simp add: run_step_send_def example_runner_def)
  show ?thesis
    using relay_loop_relays_every_request[OF run] run
    by (simp add: example_runner_def)
qed

text \<open>
  C9. \<^verbatim>\<open>run_step\<close> removes the three keys from the namespace, merges the shared
  context and then the context of the step. So a key of the step's context has the
  value it has there, whatever the shared context says; another key of the shared
  context has the shared value; and of the keys in neither, the three are gone and the
  others are as they were.
\<close>

theorem run_step_context_wins:
  "(\<forall>v. context k = Some v \<longrightarrow> run_step_namespace d shared context k = Some v)
   \<and> (\<forall>u. context k = None \<and> shared k = Some u \<longrightarrow> run_step_namespace d shared context k = Some u)
   \<and> (context k = None \<and> shared k = None \<longrightarrow>
        run_step_namespace d shared context k =
          (if k \<in> set [''__step_input__'', ''__default_output__'', ''__step_output__'']
           then None else d k))"
  by (simp add: run_step_namespace_def quick_update_def map_add_def clear_existing_keys_apply)

theorem run_step_context_wins_witness:
  "run_step_namespace [''__step_output__'' \<mapsto> ''old.txt'', ''n'' \<mapsto> ''1'']
      [''n'' \<mapsto> ''2'', ''m'' \<mapsto> ''3''] [''n'' \<mapsto> ''4''] ''n'' = Some ''4''
   \<and> run_step_namespace [''__step_output__'' \<mapsto> ''old.txt'', ''n'' \<mapsto> ''1'']
      [''n'' \<mapsto> ''2'', ''m'' \<mapsto> ''3''] [''n'' \<mapsto> ''4''] ''m'' = Some ''3''
   \<and> run_step_namespace [''__step_output__'' \<mapsto> ''old.txt'', ''n'' \<mapsto> ''1'']
      [''n'' \<mapsto> ''2'', ''m'' \<mapsto> ''3''] [''n'' \<mapsto> ''4''] ''__step_output__'' = None"
  using run_step_context_wins[of "[''n'' \<mapsto> ''4'']" "''n''"
      "[''__step_output__'' \<mapsto> ''old.txt'', ''n'' \<mapsto> ''1'']" "[''n'' \<mapsto> ''2'', ''m'' \<mapsto> ''3'']"]
    run_step_context_wins[of "[''n'' \<mapsto> ''4'']" "''m''"
      "[''__step_output__'' \<mapsto> ''old.txt'', ''n'' \<mapsto> ''1'']" "[''n'' \<mapsto> ''2'', ''m'' \<mapsto> ''3'']"]
    run_step_context_wins[of "[''n'' \<mapsto> ''4'']" "''__step_output__''"
      "[''__step_output__'' \<mapsto> ''old.txt'', ''n'' \<mapsto> ''1'']" "[''n'' \<mapsto> ''2'', ''m'' \<mapsto> ''3'']"]
  by simp

text \<open>
  C10. With \<^verbatim>\<open>capture_output\<close> set, a failure with \<^verbatim>\<open>ArgumentError\<close> gives a result
  of exactly the keys \<^verbatim>\<open>index\<close>, \<^verbatim>\<open>ret_code\<close> (1) and \<^verbatim>\<open>exception\<close>, whereas the
  other failures reported in band (a structured signal, \<^verbatim>\<open>CalledProcessError\<close>, any
  other \<^verbatim>\<open>Exception\<close>) give a result that has the keys \<^verbatim>\<open>stdout\<close> and \<^verbatim>\<open>stderr\<close>
  too, holding \<^verbatim>\<open>outmsg\<close> and \<^verbatim>\<open>errmsg\<close> as they are when the exception is raised.
\<close>

theorem argument_error_result_omits_streams:
  assumes "try_body j w (enter j s) = (Inl e, s1)" and "capture_output j"
  shows "(\<forall>m. e = ArgumentError m \<longrightarrow>
            fst (priv_execute_substep j w s)
              = Inr [(''index'', VInt (v_index j)), (''ret_code'', VInt 1), (''exception'', VExc e)])
    \<and> ((\<forall>m. e \<noteq> ArgumentError m) \<and> \<not> is_cancellation e
          \<and> isinstance_Exception (ProcessKilled_is_Exception w) e \<longrightarrow>
        (\<exists>res. fst (priv_execute_substep j w s) = Inr res
           \<and> map fst res = [''index'', ''ret_code'', ''exception'', ''stdout'', ''stderr'']
           \<and> map_of res ''stdout'' = Some (VStr (outmsg s1))
           \<and> map_of res ''stderr'' = Some (VStr (errmsg s1))))"
  using assms(2)
  by (cases e) (simp_all add: priv_execute_substep_raised[OF assms(1)] except_clauses_def
      unfold_comp failure_result_def dict_update_def Let_def)

theorem argument_error_result_omits_streams_witness:
  "fst (priv_execute_substep example_job
          (example_world\<lparr>SoS_exec := Some (ArgumentError ''bad parameter'')\<rparr>) idle_state)
     = Inr [(''index'', VInt 0), (''ret_code'', VInt 1), (''exception'', VExc (ArgumentError ''bad parameter''))]
   \<and> (\<exists>res. fst (priv_execute_substep example_job
          (example_world\<lparr>SoS_exec := Some (TerminateExecution ''done'')\<rparr>) idle_state) = Inr res
        \<and> map fst res = [''index'', ''ret_code'', ''exception'', ''stdout'', ''stderr''])"
proof -
  have t1: "try_body example_job (example_world\<lparr>SoS_exec := Some (ArgumentError ''bad parameter'')\<rparr>)
      (enter example_job idle_state)
    = (Inl (ArgumentError ''bad parameter''),
       idle_state\<lparr>sys_stdout := StringIO ''hello'', sys_stderr := StringIO [],
         trace := [SigLock None, VerifyInput, Exec ''x=1+1''], sig := True\<rparr>)"
    by (simp add: run_defs)
  have t2: "try_body example_job (example_world\<lparr>SoS_exec := Some (TerminateExecution ''done'')\<rparr>)
      (enter example_job idle_state)
    = (Inl (TerminateExecution ''done''),
       idle_state\<lparr>sys_stdout := StringIO ''hello'', sys_stderr := StringIO [],
         trace := [SigLock None, VerifyInput, Exec ''x=1+1''], sig := True\<rparr>)"
    by (simp add: run_defs)
  have c: "capture_output example_job"
    by (simp add: example_job_def)
  show ?thesis
    using argument_error_result_omits_streams[OF t1 c] argument_error_result_omits_streams[OF t2 c]
    by (auto simp: example_job_def example_world_def)
qed

end
